theory Spec2Isabelle
  imports Complex_Main
begin

section \<open>Data model (types.ts)\<close>

text \<open>
  JavaScript numbers are modelled as exact real numbers: every input is a finite number
  and arithmetic does not round. Wall-clock reads (\<open>Date.now()\<close>) are an explicit
  argument \<open>now\<close>. A value that may be \<open>null\<close> or \<open>undefined\<close> is an \<open>option\<close>.
\<close>

record PriceData =
  timestamp :: real
  price :: real
  high :: real
  low :: real

record OrderBookFeatureData =
  mid_price :: real
  spread :: real
  bid_vol :: real
  ask_vol :: real
  imbalance :: real
  weighted_mid :: real

text \<open>The literal type \<open>'15s' | '30s' | '60s'\<close> of the generator and of oracle predictions.\<close>

datatype Horizon = H15s | H30s | H60s

text \<open>\<open>OrderBookTimeframe = '5s' | '15s' | '30s' | '60s'\<close>.\<close>

datatype OrderBookTimeframe = TF5s | TF15s | TF30s | TF60s

text \<open>A horizon used where an \<open>OrderBookTimeframe\<close> is expected (the same string).\<close>

fun asTimeframe :: "Horizon \<Rightarrow> OrderBookTimeframe" where
  "asTimeframe H15s = TF15s"
| "asTimeframe H30s = TF30s"
| "asTimeframe H60s = TF60s"

datatype PredictionDirection = UP | DOWN

datatype OrderBookPredictionDirection = OB_UP | OB_DOWN | OB_NEUTRAL

record OrderBookPrediction =
  ob_timeframe :: OrderBookTimeframe
  ob_direction :: OrderBookPredictionDirection
  ob_confidence :: real
  ob_timestamp :: real

text \<open>One entry of \<open>AccuracyStats\<close> / \<open>OrderBookAccuracyStats\<close>.\<close>

record AccuracyEntry =
  correct :: real
  total :: real
  accuracy :: real

section \<open>Heuristic signal generator (App.tsx, generateSmartOrderBookPrediction)\<close>

text \<open>Lines 34-36: the base direction from the imbalance.\<close>

definition baseDirectionOf :: "OrderBookFeatureData \<Rightarrow> OrderBookPredictionDirection" where
  "baseDirectionOf currentFeatures =
     (if imbalance currentFeatures > 0.05 then OB_UP
      else if imbalance currentFeatures < - 0.05 then OB_DOWN
      else OB_NEUTRAL)"

text \<open>Lines 38-47: \<open>confidence\<close> after the imbalance-momentum step.\<close>

definition confidenceAfterImbalanceMomentum ::
  "OrderBookFeatureData \<Rightarrow> OrderBookFeatureData option \<Rightarrow> real" where
  "confidenceAfterImbalanceMomentum currentFeatures previousFeatures =
     (let baseDirection = baseDirectionOf currentFeatures;
          confidence = \<bar>imbalance currentFeatures\<bar> * 1.5
      in case previousFeatures of
           None \<Rightarrow> confidence
         | Some prev \<Rightarrow>
             (let imbalanceDelta = imbalance currentFeatures - imbalance prev
              in if (imbalanceDelta > 0.01 \<and> baseDirection = OB_UP)
                    \<or> (imbalanceDelta < - 0.01 \<and> baseDirection = OB_DOWN)
                 then confidence + 0.15
                 else if (imbalanceDelta < - 0.01 \<and> baseDirection = OB_UP)
                    \<or> (imbalanceDelta > 0.01 \<and> baseDirection = OB_DOWN)
                 then confidence - 0.15
                 else confidence))"

text \<open>Lines 49-54: \<open>confidence\<close> after the price-momentum step, as tested against 0.3.\<close>

definition confidenceAfterPriceMomentum ::
  "OrderBookFeatureData \<Rightarrow> OrderBookFeatureData option \<Rightarrow> real \<Rightarrow> real" where
  "confidenceAfterPriceMomentum currentFeatures previousFeatures priceChange =
     (let baseDirection = baseDirectionOf currentFeatures;
          confidence = confidenceAfterImbalanceMomentum currentFeatures previousFeatures;
          priceMomentumThreshold = 0.1
      in if (priceChange > priceMomentumThreshold \<and> baseDirection = OB_UP)
            \<or> (priceChange < - priceMomentumThreshold \<and> baseDirection = OB_DOWN)
         then confidence + 0.1
         else if (priceChange < - priceMomentumThreshold \<and> baseDirection = OB_UP)
            \<or> (priceChange > priceMomentumThreshold \<and> baseDirection = OB_DOWN)
         then confidence - 0.2
         else confidence)"

text \<open>Lines 56-79: direction override, clamp, horizon decay, accuracy adjustment.\<close>

definition generateSmartOrderBookPrediction ::
  "Horizon \<Rightarrow> OrderBookFeatureData \<Rightarrow> OrderBookFeatureData option \<Rightarrow> real
     \<Rightarrow> AccuracyEntry option \<Rightarrow> real \<Rightarrow> OrderBookPrediction" where
  "generateSmartOrderBookPrediction tf currentFeatures previousFeatures priceChange acc now =
     (let baseDirection = baseDirectionOf currentFeatures;
          confidence = confidenceAfterPriceMomentum currentFeatures previousFeatures priceChange;
          finalDirection = (if confidence < 0.3 then OB_NEUTRAL else baseDirection);
          finalConfidence = max 0 (min 0.95 confidence);
          confidenceDecay = (if tf = H60s then 0.1 else if tf = H30s then 0.05 else 0);
          accuracyAdjustment =
            (case acc of
               None \<Rightarrow> 0
             | Some a \<Rightarrow> if total a > 5 then (accuracy a - 0.5) * 0.1 else 0)
      in \<lparr> ob_timeframe = asTimeframe tf,
           ob_direction = finalDirection,
           ob_confidence = max 0 (min 0.95 (finalConfidence - confidenceDecay + accuracyAdjustment)),
           ob_timestamp = now \<rparr>)"

subsection \<open>The confidence pipeline as the specification words it\<close>

definition clamp :: "real \<Rightarrow> real \<Rightarrow> real \<Rightarrow> real" where
  "clamp x lo hi = (if x < lo then lo else if hi < x then hi else x)"

fun directionSign :: "OrderBookPredictionDirection \<Rightarrow> real" where
  "directionSign OB_UP = 1"
| "directionSign OB_DOWN = - 1"
| "directionSign OB_NEUTRAL = 0"

definition spec_baseDirection :: "real \<Rightarrow> OrderBookPredictionDirection" where
  "spec_baseDirection imb =
     (if imb > 0.05 then OB_UP else if imb < - 0.05 then OB_DOWN else OB_NEUTRAL)"

text \<open>
  A momentum term: \<open>bonus\<close> when the delta agrees in sign with the direction beyond the
  threshold, \<open>- penalty\<close> when it disagrees beyond the threshold, nothing otherwise.
\<close>

definition spec_momentum ::
  "real \<Rightarrow> real \<Rightarrow> real \<Rightarrow> OrderBookPredictionDirection \<Rightarrow> real \<Rightarrow> real" where
  "spec_momentum threshold bonus penalty dir delta =
     (if directionSign dir * delta > threshold then bonus
      else if directionSign dir * delta < - threshold then - penalty
      else 0)"

fun spec_decay :: "Horizon \<Rightarrow> real" where
  "spec_decay H15s = 0"
| "spec_decay H30s = 0.05"
| "spec_decay H60s = 0.1"

fun spec_accuracyAdjustment :: "AccuracyEntry option \<Rightarrow> real" where
  "spec_accuracyAdjustment None = 0"
| "spec_accuracyAdjustment (Some a) = (if total a > 5 then (accuracy a - 0.5) * 0.1 else 0)"

definition spec_rawConfidence :: "real \<Rightarrow> real option \<Rightarrow> real \<Rightarrow> real" where
  "spec_rawConfidence imb prevImb priceChange =
     \<bar>imb\<bar> * 1.5
       + (case prevImb of
            None \<Rightarrow> 0
          | Some p \<Rightarrow> spec_momentum 0.01 0.15 0.15 (spec_baseDirection imb) (imb - p))
       + spec_momentum 0.1 0.1 0.2 (spec_baseDirection imb) priceChange"

definition spec_confidence ::
  "Horizon \<Rightarrow> real \<Rightarrow> real option \<Rightarrow> real \<Rightarrow> AccuracyEntry option \<Rightarrow> real" where
  "spec_confidence tf imb prevImb priceChange acc =
     clamp (clamp (spec_rawConfidence imb prevImb priceChange) 0 0.95
              - spec_decay tf + spec_accuracyAdjustment acc) 0 0.95"


section \<open>Prediction outcome tracker (App.tsx)\<close>

record PredictionResult =
  ai_timeframe :: Horizon
  ai_direction :: PredictionDirection
  ai_confidence :: real
  ai_reasoning :: string
  ai_timestamp :: real
  priceAtPrediction :: real

datatype OutcomeStatus = PENDING | CORRECT | INCORRECT

datatype OrderBookOutcomeStatus = OB_PENDING | OB_CORRECT | OB_INCORRECT | OB_STATUS_NEUTRAL

record PredictionOutcome =
  ai_prediction :: PredictionResult
  ai_status :: OutcomeStatus

record OrderBookPredictionOutcome =
  ob_prediction :: OrderBookPrediction
  ob_status :: OrderBookOutcomeStatus

definition MAX_HISTORY_LENGTH :: nat where
  "MAX_HISTORY_LENGTH = 120"

definition MAX_OUTCOME_HISTORY :: nat where
  "MAX_OUTCOME_HISTORY = 60"

text \<open>
  \<open>timeframeMap = { '15s': 15000, '30s': 30000, '60s': 60000 }\<close>: the key \<open>'5s'\<close> is
  missing, so the lookup is \<open>undefined\<close> there.
\<close>

fun timeframeMap :: "OrderBookTimeframe \<Rightarrow> real option" where
  "timeframeMap TF15s = Some 15000"
| "timeframeMap TF30s = Some 30000"
| "timeframeMap TF60s = Some 60000"
| "timeframeMap TF5s = None"

text \<open>
  \<open>Date.now() - prediction.timestamp >= timeframeMap[prediction.timeframe]\<close>; a comparison
  with \<open>undefined\<close> is false.
\<close>

definition horizonElapsed :: "real \<Rightarrow> real \<Rightarrow> OrderBookTimeframe \<Rightarrow> bool" where
  "horizonElapsed now ts tf =
     (case timeframeMap tf of None \<Rightarrow> False | Some h \<Rightarrow> now - ts \<ge> h)"

text \<open>Line 226: a new heuristic prediction is stored at the front, PENDING.\<close>

definition recordOrderBookPrediction ::
  "OrderBookPrediction \<Rightarrow> OrderBookPredictionOutcome list \<Rightarrow> OrderBookPredictionOutcome list" where
  "recordOrderBookPrediction newPrediction prev =
     take MAX_OUTCOME_HISTORY (\<lparr> ob_prediction = newPrediction, ob_status = OB_PENDING \<rparr> # prev)"

text \<open>Line 329: the oracle's predictions are stored at the front, PENDING.\<close>

definition recordAiPredictions ::
  "PredictionResult list \<Rightarrow> PredictionOutcome list \<Rightarrow> PredictionOutcome list" where
  "recordAiPredictions predictionsWithMetadata prev =
     take MAX_OUTCOME_HISTORY
       (map (\<lambda>p. \<lparr> ai_prediction = p, ai_status = PENDING \<rparr>) predictionsWithMetadata @ prev)"

text \<open>Lines 257-267: the function mapped over the oracle outcomes.\<close>

definition resolveAiOutcome :: "real \<Rightarrow> real \<Rightarrow> PredictionOutcome \<Rightarrow> PredictionOutcome" where
  "resolveAiOutcome latestPrice now outcome =
     (if ai_status outcome = PENDING then
        (let prediction = ai_prediction outcome
         in if horizonElapsed now (ai_timestamp prediction) (asTimeframe (ai_timeframe prediction))
            then (let actualDirection =
                        (if latestPrice > priceAtPrediction prediction then UP else DOWN);
                      newStatus =
                        (if actualDirection = ai_direction prediction then CORRECT else INCORRECT)
                  in outcome\<lparr> ai_status := newStatus \<rparr>)
            else outcome)
      else outcome)"

text \<open>
  Lines 255-271. The state is replaced only when the serialised lists differ, which is
  modelled as inequality of the lists. One run reads the clock once: the same \<open>now\<close>
  serves every outcome of the list.
\<close>

definition resolveAiOutcomes ::
  "real \<Rightarrow> real \<Rightarrow> PredictionOutcome list \<Rightarrow> PredictionOutcome list" where
  "resolveAiOutcomes latestPrice now aiPredictionOutcomes =
     (if length aiPredictionOutcomes = 0 then aiPredictionOutcomes
      else (let updatedOutcomes = map (resolveAiOutcome latestPrice now) aiPredictionOutcomes
            in if updatedOutcomes \<noteq> aiPredictionOutcomes then updatedOutcomes
               else aiPredictionOutcomes))"

text \<open>
  Lines 275-291: the function mapped over the heuristic outcomes. The baseline is looked
  up in \<open>priceHistoryRef.current\<close>, which holds the price history of the render that
  scheduled the effect, the same list as \<open>priceHistory\<close>.
\<close>

definition resolveOrderBookOutcome ::
  "real \<Rightarrow> PriceData list \<Rightarrow> real \<Rightarrow> OrderBookPredictionOutcome \<Rightarrow> OrderBookPredictionOutcome" where
  "resolveOrderBookOutcome latestPrice priceHistory now outcome =
     (if ob_status outcome = OB_PENDING then
        (let prediction = ob_prediction outcome
         in if horizonElapsed now (ob_timestamp prediction) (ob_timeframe prediction)
            then (case find (\<lambda>p. timestamp p \<ge> ob_timestamp prediction) priceHistory of
                    None \<Rightarrow> outcome
                  | Some sample \<Rightarrow>
                      (let priceAtPrediction = price sample
                       in if ob_direction prediction = OB_NEUTRAL
                          then outcome\<lparr> ob_status := OB_STATUS_NEUTRAL \<rparr>
                          else (let actualDirection =
                                      (if latestPrice > priceAtPrediction then OB_UP else OB_DOWN);
                                    newStatus =
                                      (if actualDirection = ob_direction prediction
                                       then OB_CORRECT else OB_INCORRECT)
                                in outcome\<lparr> ob_status := newStatus \<rparr>)))
            else outcome)
      else outcome)"

text \<open>Lines 273-295.\<close>

definition resolveOrderBookOutcomes ::
  "real \<Rightarrow> PriceData list \<Rightarrow> real \<Rightarrow> OrderBookPredictionOutcome list
     \<Rightarrow> OrderBookPredictionOutcome list" where
  "resolveOrderBookOutcomes latestPrice priceHistory now orderBookOutcomes =
     (if length orderBookOutcomes = 0 then orderBookOutcomes
      else (let updatedOutcomes =
                  map (resolveOrderBookOutcome latestPrice priceHistory now) orderBookOutcomes
            in if updatedOutcomes \<noteq> orderBookOutcomes then updatedOutcomes
               else orderBookOutcomes))"

text \<open>
  Lines 249-300, one run of the resolution effect over both outcome lists. The effect
  returns at once when there is no latest price or the latest price is falsy (zero).
\<close>

definition resolutionPass ::
  "PriceData list \<Rightarrow> real \<Rightarrow> PredictionOutcome list \<times> OrderBookPredictionOutcome list
     \<Rightarrow> PredictionOutcome list \<times> OrderBookPredictionOutcome list" where
  "resolutionPass priceHistory now st =
     (case (if priceHistory = [] then None else Some (price (last priceHistory))) of
        None \<Rightarrow> st
      | Some latestPrice \<Rightarrow>
          if latestPrice = 0 then st
          else (resolveAiOutcomes latestPrice now (fst st),
                resolveOrderBookOutcomes latestPrice priceHistory now (snd st)))"

text \<open>
  A sequence of runs of the effect, each with the price history and the clock of its
  own moment.
\<close>

fun resolutionPasses ::
  "(PriceData list \<times> real) list \<Rightarrow> PredictionOutcome list \<times> OrderBookPredictionOutcome list
     \<Rightarrow> PredictionOutcome list \<times> OrderBookPredictionOutcome list" where
  "resolutionPasses [] st = st"
| "resolutionPasses ((priceHistory, now) # rest) st =
     resolutionPasses rest (resolutionPass priceHistory now st)"

section \<open>Accuracy aggregation (App.tsx, orderBookAccuracyStats)\<close>

text \<open>
  Lines 189-199. The statistics object starts with \<open>null\<close> under each of the three keys
  and is filled in by the \<open>forEach\<close> over \<open>['15s', '30s', '60s']\<close>.
\<close>

definition orderBookAccuracyStats ::
  "OrderBookPredictionOutcome list \<Rightarrow> OrderBookTimeframe \<Rightarrow> AccuracyEntry option" where
  "orderBookAccuracyStats outcomes =
     foldl (\<lambda>stats tf.
        (let relevant = filter (\<lambda>oc. ob_timeframe (ob_prediction oc) = tf
                                   \<and> ob_direction (ob_prediction oc) \<noteq> OB_NEUTRAL
                                   \<and> ob_status oc \<noteq> OB_PENDING) outcomes
         in if length relevant > 0
            then (let nCorrect = length (filter (\<lambda>oc. ob_status oc = OB_CORRECT) relevant)
                  in stats(tf := Some \<lparr> correct = real nCorrect,
                                        total = real (length relevant),
                                        accuracy = real nCorrect / real (length relevant) \<rparr>))
            else stats))
       (\<lambda>tf. None) [TF15s, TF30s, TF60s]"

text \<open>The outcomes the specification counts for a horizon.\<close>

definition spec_qualifying ::
  "OrderBookPredictionOutcome list \<Rightarrow> Horizon \<Rightarrow> OrderBookPredictionOutcome list" where
  "spec_qualifying outcomes h =
     filter (\<lambda>oc. ob_timeframe (ob_prediction oc) = asTimeframe h
                \<and> ob_status oc \<noteq> OB_PENDING
                \<and> ob_direction (ob_prediction oc) \<noteq> OB_NEUTRAL) outcomes"

section \<open>Price history buffer (App.tsx, line 181)\<close>

text \<open>\<open>xs.slice(-n)\<close> for a positive \<open>n\<close>: the last \<open>n\<close> elements, or all of them.\<close>

definition sliceLast :: "nat \<Rightarrow> 'a list \<Rightarrow> 'a list" where
  "sliceLast n xs = drop (length xs - n) xs"

definition appendPrice :: "PriceData list \<Rightarrow> PriceData \<Rightarrow> PriceData list" where
  "appendPrice prev newPriceData = sliceLast MAX_HISTORY_LENGTH (prev @ [newPriceData])"

section \<open>Order-book feature extractor (orderbookService.ts)\<close>

text \<open>
  An order book as received, each level given by the numbers that \<open>parseFloat\<close> reads
  from its price and quantity strings.
\<close>

record OrderBook =
  bids :: "(real \<times> real) list"
  asks :: "(real \<times> real) list"

text \<open>
  Lines 33-70; the argument is the result of \<open>getOrderBook\<close>, \<open>None\<close> when the fetch
  failed.
\<close>

definition getOrderBookFeatures :: "OrderBook option \<Rightarrow> OrderBookFeatureData option" where
  "getOrderBookFeatures fetched =
     (case fetched of
        None \<Rightarrow> None
      | Some orderBook \<Rightarrow>
          if length (bids orderBook) = 0 \<or> length (asks orderBook) = 0 then None
          else (let best_bid = fst (hd (bids orderBook));
                    best_ask = fst (hd (asks orderBook));
                    bidVol = foldl (\<lambda>acc level. acc + snd level) 0 (take 10 (bids orderBook));
                    askVol = foldl (\<lambda>acc level. acc + snd level) 0 (take 10 (asks orderBook));
                    total_vol = bidVol + askVol + 1 / 10 ^ 9
                in Some \<lparr> mid_price = (best_bid + best_ask) / 2,
                          spread = best_ask - best_bid,
                          bid_vol = bidVol,
                          ask_vol = askVol,
                          imbalance = (bidVol - askVol) / total_vol,
                          weighted_mid = (best_ask * bidVol + best_bid * askVol) / total_vol \<rparr>))"

section \<open>Indicator engine (technicalIndicators.ts)\<close>

text \<open>
  Periods are positive whole numbers (the callers use the defaults); the model is meant
  for such periods only.
\<close>

text \<open>Lines 1-17.\<close>

definition calculateEMASeries :: "real list \<Rightarrow> nat \<Rightarrow> real option list option" where
  "calculateEMASeries prices period =
     (if length prices < period then None
      else (let k = 2 / (real period + 1);
                emas0 = replicate (length prices) None;
                s = fold (\<lambda>i acc. acc + prices ! i) [0..<period] 0;
                emas1 = emas0[period - 1 := Some (s / real period)]
            in Some (fold (\<lambda>i emas.
                       (case emas ! (i - 1) of
                          None \<Rightarrow> emas
                        | Some prevEma \<Rightarrow> emas[i := Some (prices ! i * k + prevEma * (1 - k))]))
                     [period..<length prices] emas1)))"

text \<open>Lines 19-24.\<close>

definition calculateSMA :: "real list \<Rightarrow> nat \<Rightarrow> real option" where
  "calculateSMA xs period =
     (if length xs < period then None
      else Some (foldl (+) 0 (sliceLast period xs) / real period))"

text \<open>Lines 26-34.\<close>

definition calculateStdDev :: "real list \<Rightarrow> nat \<Rightarrow> real option" where
  "calculateStdDev xs period =
     (if length xs < period then None
      else (let sl = sliceLast period xs
            in case calculateSMA sl period of
                 None \<Rightarrow> None
               | Some mean \<Rightarrow>
                   (let sqDiff = map (\<lambda>p. (p - mean) ^ 2) sl;
                        avgSqDiff = foldl (+) 0 sqDiff / real period
                    in Some (sqrt avgSqDiff))))"

record BBands =
  upper :: real
  middle :: real
  lower :: real

text \<open>Lines 40-53; the defaults are \<open>period = 20\<close>, \<open>stdDevMultiplier = 2\<close>.\<close>

definition calculateBBands :: "real list \<Rightarrow> nat \<Rightarrow> real \<Rightarrow> BBands option" where
  "calculateBBands prices period stdDevMultiplier =
     (if length prices < period then None
      else (case (calculateSMA prices period, calculateStdDev prices period) of
              (Some mid, Some stdDev) \<Rightarrow>
                Some \<lparr> upper = mid + stdDev * stdDevMultiplier,
                       middle = mid,
                       lower = mid - stdDev * stdDevMultiplier \<rparr>
            | _ \<Rightarrow> None))"

text \<open>
  The stochastic oscillator reads \<open>highs\<close> and \<open>lows\<close> at the indices of \<open>closes\<close>.
  Where one of them is too short the window is empty, \<open>Math.max()\<close> is \<open>-Infinity\<close> and
  \<open>Math.min()\<close> is \<open>Infinity\<close>; the quotient is then \<open>NaN\<close>, or zero when only the highs
  are missing. A \<open>%K\<close> or \<open>%D\<close> value is therefore a \<open>real option\<close>, \<open>None\<close> for \<open>NaN\<close>.
\<close>

text \<open>\<open>xs.slice(a, b)\<close> for \<open>0 \<le> a\<close> and \<open>0 \<le> b\<close>.\<close>

definition slice :: "'a list \<Rightarrow> nat \<Rightarrow> nat \<Rightarrow> 'a list" where
  "slice xs a b = drop a (take b xs)"

text \<open>Lines 70-81: the body of the loop at index \<open>i\<close>.\<close>

definition stochasticK :: "real list \<Rightarrow> real list \<Rightarrow> real list \<Rightarrow> nat \<Rightarrow> nat \<Rightarrow> real option" where
  "stochasticK highs lows closes kPeriod i =
     (let sliceHighs = slice highs (i + 1 - kPeriod) (i + 1);
          sliceLows = slice lows (i + 1 - kPeriod) (i + 1);
          currentClose = closes ! i
      in if sliceLows = [] then None
         else if sliceHighs = [] then Some 0
         else (let highestHigh = Max (set sliceHighs);
                   lowestLow = Min (set sliceLows)
               in if highestHigh = lowestLow then Some 100
                  else Some (100 * ((currentClose - lowestLow) / (highestHigh - lowestLow)))))"

record Stochastic =
  stoch_k :: "real option"
  stoch_d :: "real option"

text \<open>Lines 59-94; the defaults are \<open>kPeriod = 14\<close>, \<open>dPeriod = 3\<close>.\<close>

definition calculateStochastic ::
  "real list \<Rightarrow> real list \<Rightarrow> real list \<Rightarrow> nat \<Rightarrow> nat \<Rightarrow> Stochastic option" where
  "calculateStochastic highs lows closes kPeriod dPeriod =
     (if length closes < kPeriod then None
      else (let kValues = map (stochasticK highs lows closes kPeriod)
                            [kPeriod - 1..<length closes]
            in if length kValues < dPeriod then None
               else (let lastK = last kValues;
                         dSlice = sliceLast dPeriod kValues;
                         lastD = (if None \<in> set dSlice then None
                                  else Some (foldl (+) 0 (map the dSlice) / real dPeriod))
                     in Some \<lparr> stoch_k = lastK, stoch_d = lastD \<rparr>)))"

text \<open>Lines 107-118: the sums of gains and losses over the first \<open>period\<close> changes.\<close>

definition rsiInitialSums :: "real list \<Rightarrow> nat \<Rightarrow> real \<times> real" where
  "rsiInitialSums prices period =
     fold (\<lambda>i (gains, losses).
        (let change = prices ! i - prices ! (i - 1)
         in if change > 0 then (gains + change, losses) else (gains, losses - change)))
       [1..<period + 1] (0, 0)"

text \<open>Lines 123-128: Wilder's smoothing over the remaining changes.\<close>

definition rsiSmooth :: "real list \<Rightarrow> nat \<Rightarrow> real \<times> real \<Rightarrow> real \<times> real" where
  "rsiSmooth prices period start =
     fold (\<lambda>i (avgGain, avgLoss).
        (let change = prices ! i - prices ! (i - 1)
         in ((avgGain * (real period - 1) + (if change > 0 then change else 0)) / real period,
             (avgLoss * (real period - 1) + (if change < 0 then - change else 0)) / real period)))
       [period + 1..<length prices] start"

text \<open>Lines 102-136; the default is \<open>period = 14\<close>.\<close>

definition calculateRSI :: "real list \<Rightarrow> nat \<Rightarrow> real option" where
  "calculateRSI prices period =
     (if length prices \<le> period then None
      else (let (gains, losses) = rsiInitialSums prices period;
                (avgGain, avgLoss) = rsiSmooth prices period (gains / real period, losses / real period)
            in if avgLoss = 0 then Some 100
               else (let rs = avgGain / avgLoss in Some (100 - 100 / (1 + rs)))))"

record MACD =
  macd :: real
  signal :: real
  histogram :: real

text \<open>\<open>xs.filter(v => v !== null)\<close>.\<close>

definition nonNull :: "'a option list \<Rightarrow> 'a list" where
  "nonNull xs = List.map_filter (\<lambda>v. v) xs"

text \<open>Lines 143-179; the defaults are \<open>fastPeriod = 12\<close>, \<open>slowPeriod = 26\<close>, \<open>signalPeriod = 9\<close>.\<close>

definition calculateMACD :: "real list \<Rightarrow> nat \<Rightarrow> nat \<Rightarrow> nat \<Rightarrow> MACD option" where
  "calculateMACD prices fastPeriod slowPeriod signalPeriod =
     (if length prices < slowPeriod + signalPeriod then None
      else (case (calculateEMASeries prices fastPeriod, calculateEMASeries prices slowPeriod) of
              (Some ema12, Some ema26) \<Rightarrow>
                (let macdLineSeries =
                       map (\<lambda>i. case (ema12 ! i, ema26 ! i) of
                                   (Some a, Some b) \<Rightarrow> Some (a - b)
                                 | _ \<Rightarrow> None) [0..<length prices];
                     validMacdValues = nonNull macdLineSeries
                 in if length validMacdValues < signalPeriod then None
                    else (case calculateEMASeries validMacdValues signalPeriod of
                            None \<Rightarrow> None
                          | Some signalLineEMASeries \<Rightarrow>
                              (let validSignalValues = nonNull signalLineEMASeries
                               in if length validSignalValues = 0 then None
                                  else if validMacdValues = [] then None
                                  else (let lastMacd = last validMacdValues;
                                            lastSignal = last validSignalValues
                                        in Some \<lparr> macd = lastMacd,
                                                  signal = lastSignal,
                                                  histogram = lastMacd - lastSignal \<rparr>))))
            | _ \<Rightarrow> None))"

subsection \<open>RSI as the specification words it\<close>

text \<open>The changes between consecutive prices, oldest first.\<close>

definition spec_deltas :: "real list \<Rightarrow> real list" where
  "spec_deltas prices = map (\<lambda>(later, earlier). later - earlier) (zip (tl prices) prices)"

definition spec_gain :: "real \<Rightarrow> real" where
  "spec_gain d = max d 0"

definition spec_loss :: "real \<Rightarrow> real" where
  "spec_loss d = max (- d) 0"

text \<open>Wilder's recursion \<open>avg = (avg * (period - 1) + x) / period\<close> over a list of values.\<close>

fun spec_wilder :: "nat \<Rightarrow> real \<Rightarrow> real list \<Rightarrow> real" where
  "spec_wilder period avg [] = avg"
| "spec_wilder period avg (x # xs) =
     spec_wilder period ((avg * (real period - 1) + x) / real period) xs"

definition spec_avgGain :: "real list \<Rightarrow> nat \<Rightarrow> real" where
  "spec_avgGain prices period =
     spec_wilder period
       (sum_list (map spec_gain (take period (spec_deltas prices))) / real period)
       (map spec_gain (drop period (spec_deltas prices)))"

definition spec_avgLoss :: "real list \<Rightarrow> nat \<Rightarrow> real" where
  "spec_avgLoss prices period =
     spec_wilder period
       (sum_list (map spec_loss (take period (spec_deltas prices))) / real period)
       (map spec_loss (drop period (spec_deltas prices)))"

definition spec_rsi :: "real list \<Rightarrow> nat \<Rightarrow> real option" where
  "spec_rsi prices period =
     (if length prices \<le> period then None
      else if spec_avgLoss prices period = 0 then Some 100
      else Some (100 - 100 / (1 + spec_avgGain prices period / spec_avgLoss prices period)))"

section \<open>Concrete inputs used in examples\<close>

definition features :: "real \<Rightarrow> OrderBookFeatureData" where
  "features x = \<lparr> mid_price = 0, spread = 0, bid_vol = 0, ask_vol = 0,
                  imbalance = x, weighted_mid = 0 \<rparr>"

text \<open>The series \<open>1, 2, ..., n\<close>.\<close>

definition ramp :: "nat \<Rightarrow> real list" where
  "ramp n = map real [1..<n + 1]"

text \<open>A price tick, two seconds after the one before.\<close>

definition tick :: "nat \<Rightarrow> PriceData" where
  "tick n = \<lparr> timestamp = real n * 2000, price = 3000 + real n,
               high = 3001 + real n, low = 2999 + real n \<rparr>"

text \<open>Outcomes and price samples given by the fields that matter.\<close>

definition obOutcome ::
  "OrderBookTimeframe \<Rightarrow> OrderBookPredictionDirection \<Rightarrow> real \<Rightarrow> OrderBookOutcomeStatus
     \<Rightarrow> OrderBookPredictionOutcome" where
  "obOutcome tf dir ts st =
     \<lparr> ob_prediction = \<lparr> ob_timeframe = tf, ob_direction = dir, ob_confidence = 0.5,
                          ob_timestamp = ts \<rparr>,
       ob_status = st \<rparr>"

definition aiOutcome ::
  "Horizon \<Rightarrow> PredictionDirection \<Rightarrow> real \<Rightarrow> real \<Rightarrow> OutcomeStatus \<Rightarrow> PredictionOutcome" where
  "aiOutcome tf dir ts p st =
     \<lparr> ai_prediction = \<lparr> ai_timeframe = tf, ai_direction = dir, ai_confidence = 0.5,
                          ai_reasoning = ''momentum'', ai_timestamp = ts,
                          priceAtPrediction = p \<rparr>,
       ai_status = st \<rparr>"

definition sample :: "real \<Rightarrow> real \<Rightarrow> PriceData" where
  "sample ts p = \<lparr> timestamp = ts, price = p, high = p, low = p \<rparr>"

text \<open>The entry the specification reports for a list of qualifying outcomes.\<close>

definition accuracyEntryOf :: "OrderBookPredictionOutcome list \<Rightarrow> AccuracyEntry option" where
  "accuracyEntryOf q =
     (if q = [] then None
      else Some \<lparr> correct = real (length (filter (\<lambda>oc. ob_status oc = OB_CORRECT) q)),
                  total = real (length q),
                  accuracy = real (length (filter (\<lambda>oc. ob_status oc = OB_CORRECT) q))
                               / real (length q) \<rparr>)"

section \<open>Properties of the heuristic signal generator\<close>

lemma clamp_max_min: "lo \<le> hi \<Longrightarrow> clamp x lo hi = max lo (min hi x)"
  by (simp add: clamp_def max_def min_def)

lemma spec_baseDirection_eq: "spec_baseDirection (imbalance c) = baseDirectionOf c"
  by (simp add: spec_baseDirection_def baseDirectionOf_def)

lemma rawConfidence_refines:
  "confidenceAfterPriceMomentum c prev pc =
     spec_rawConfidence (imbalance c) (map_option imbalance prev) pc"
proof (cases "baseDirectionOf c")
  case OB_UP
  then show ?thesis
    by (cases prev)
       (simp_all add: confidenceAfterPriceMomentum_def confidenceAfterImbalanceMomentum_def
          spec_rawConfidence_def spec_momentum_def spec_baseDirection_eq Let_def)
next
  case OB_DOWN
  then show ?thesis
    by (cases prev)
       (simp_all add: confidenceAfterPriceMomentum_def confidenceAfterImbalanceMomentum_def
          spec_rawConfidence_def spec_momentum_def spec_baseDirection_eq Let_def)
next
  case OB_NEUTRAL
  then show ?thesis
    by (cases prev)
       (simp_all add: confidenceAfterPriceMomentum_def confidenceAfterImbalanceMomentum_def
          spec_rawConfidence_def spec_momentum_def spec_baseDirection_eq Let_def)
qed

lemma confidence_refines:
  "ob_confidence (generateSmartOrderBookPrediction tf c prev pc acc now) =
     spec_confidence tf (imbalance c) (map_option imbalance prev) pc acc"
proof -
  have d: "(if tf = H60s then 0.1 else if tf = H30s then 0.05 else (0::real)) = spec_decay tf"
    by (cases tf) simp_all
  have a: "(case acc of None \<Rightarrow> 0 | Some a \<Rightarrow> if total a > 5 then (accuracy a - 0.5) * 0.1 else 0)
             = spec_accuracyAdjustment acc"
    by (cases acc) simp_all
  show ?thesis
    unfolding generateSmartOrderBookPrediction_def Let_def spec_confidence_def
    by (simp only: d a rawConfidence_refines clamp_max_min OrderBookPrediction.simps)
       (simp add: clamp_max_min)
qed


text \<open>
  Claim C1. For every horizon, current features, optional previous features, price delta
  and optional accuracy entry, the returned confidence is the one of the specified
  pipeline: \<open>|imbalance| * 1.5\<close>, plus or minus 0.15 for an agreeing or disagreeing
  imbalance delta beyond 0.01, plus 0.1 or minus 0.2 for price momentum beyond 0.1,
  clamped to \<open>[0, 0.95]\<close>, less the horizon decay, plus \<open>(accuracy - 0.5) * 0.1\<close> when
  more than 5 predictions are completed, clamped again. With imbalance 0.30, agreeing
  imbalance and price momentum and no accuracy entry the confidence is 0.70 for 15s,
  0.65 for 30s and 0.60 for 60s.
\<close>

theorem confidence_follows_pipeline:
  "ob_confidence (generateSmartOrderBookPrediction tf c prev pc acc now) =
     spec_confidence tf (imbalance c) (map_option imbalance prev) pc acc
   \<and> (imbalance c = 0.3 \<and> imbalance c - imbalance p > 0.01 \<and> pc > 0.1 \<longrightarrow>
        ob_confidence (generateSmartOrderBookPrediction H15s c (Some p) pc None now) = 0.7
      \<and> ob_confidence (generateSmartOrderBookPrediction H30s c (Some p) pc None now) = 0.65
      \<and> ob_confidence (generateSmartOrderBookPrediction H60s c (Some p) pc None now) = 0.6)"
  by (simp add: confidence_refines spec_confidence_def spec_rawConfidence_def
        spec_momentum_def spec_baseDirection_def clamp_def)

theorem confidence_follows_pipeline_witness:
  "ob_confidence (generateSmartOrderBookPrediction H30s (features 0.3) (Some (features 0.2))
      0.5 None 1000) = 0.65
   \<and> ob_confidence (generateSmartOrderBookPrediction H60s (features (- 0.4)) (Some (features 0))
        0 (Some \<lparr> correct = 6, total = 8, accuracy = 0.75 \<rparr>) 1000) = 0.675"
  using confidence_follows_pipeline
          [of H30s "features 0.3" "Some (features 0.2)" "0.5" None 1000 "features 0.2"]
        confidence_follows_pipeline
          [of H60s "features (- 0.4)" "Some (features 0)" 0
              "Some \<lparr> correct = 6, total = 8, accuracy = 0.75 \<rparr>" 1000]
  by (simp add: features_def spec_confidence_def spec_rawConfidence_def
        spec_momentum_def spec_baseDirection_def clamp_def)

text \<open>
  Claim C2 (as amended). Whenever the confidence after the two momentum adjustments,
  before clamping and decay, is below 0.3, the returned direction is NEUTRAL whatever
  the sign of the imbalance. With imbalance 0.10, no previous snapshot, price change 0
  and no accuracy entry that confidence is 0.15 and every horizon returns NEUTRAL; the
  returned confidence is 0.15 for 15s, 0.10 for 30s and 0.05 for 60s, since the horizon
  decay is subtracted.
\<close>

theorem low_confidence_forces_neutral:
  "(confidenceAfterPriceMomentum c prev pc < 0.3 \<longrightarrow>
      ob_direction (generateSmartOrderBookPrediction tf c prev pc acc now) = OB_NEUTRAL)
   \<and> (imbalance c = 0.1 \<longrightarrow>
        ob_direction (generateSmartOrderBookPrediction tf c None 0 None now) = OB_NEUTRAL
      \<and> confidenceAfterPriceMomentum c None 0 = 0.15
      \<and> ob_confidence (generateSmartOrderBookPrediction H15s c None 0 None now) = 0.15
      \<and> ob_confidence (generateSmartOrderBookPrediction H30s c None 0 None now) = 0.1
      \<and> ob_confidence (generateSmartOrderBookPrediction H60s c None 0 None now) = 0.05)"
proof -
  have low: "ob_direction (generateSmartOrderBookPrediction h c p d a now) = OB_NEUTRAL"
    if "confidenceAfterPriceMomentum c p d < 0.3" for h p d a
    using that by (simp add: generateSmartOrderBookPrediction_def Let_def)
  have raw: "confidenceAfterPriceMomentum c None 0 = 0.15" if "imbalance c = 0.1"
    using that
    by (simp add: confidenceAfterPriceMomentum_def confidenceAfterImbalanceMomentum_def Let_def)
  have conf: "ob_confidence (generateSmartOrderBookPrediction h c None 0 None now)
                = 0.15 - spec_decay h" if "imbalance c = 0.1" for h
    by (cases h) (simp_all add: generateSmartOrderBookPrediction_def Let_def raw [OF that])
  show ?thesis
  proof (intro conjI impI)
    assume "confidenceAfterPriceMomentum c prev pc < 0.3"
    then show "ob_direction (generateSmartOrderBookPrediction tf c prev pc acc now) = OB_NEUTRAL"
      by (rule low)
  next
    assume i: "imbalance c = 0.1"
    from raw [OF i] have "confidenceAfterPriceMomentum c None 0 < 0.3" by simp
    then show "ob_direction (generateSmartOrderBookPrediction tf c None 0 None now) = OB_NEUTRAL"
      by (rule low)
  next
    assume i: "imbalance c = 0.1"
    show "confidenceAfterPriceMomentum c None 0 = 0.15" by (rule raw [OF i])
  next
    assume i: "imbalance c = 0.1"
    show "ob_confidence (generateSmartOrderBookPrediction H15s c None 0 None now) = 0.15"
      using conf [OF i, of H15s] by simp
  next
    assume i: "imbalance c = 0.1"
    show "ob_confidence (generateSmartOrderBookPrediction H30s c None 0 None now) = 0.1"
      using conf [OF i, of H30s] by simp
  next
    assume i: "imbalance c = 0.1"
    show "ob_confidence (generateSmartOrderBookPrediction H60s c None 0 None now) = 0.05"
      using conf [OF i, of H60s] by simp
  qed
qed

theorem low_confidence_forces_neutral_witness:
  "ob_direction (generateSmartOrderBookPrediction H60s (features 0.1) None 0 None 7) = OB_NEUTRAL
   \<and> ob_confidence (generateSmartOrderBookPrediction H60s (features 0.1) None 0 None 7) = 0.05
   \<and> ob_direction (generateSmartOrderBookPrediction H15s (features (- 0.25))
        (Some (features (- 0.3))) 0.2 None 7) = OB_NEUTRAL"
  using low_confidence_forces_neutral [of "features 0.1" None 0 H60s None 7]
        low_confidence_forces_neutral
          [of "features (- 0.25)" "Some (features (- 0.3))" "0.2" H15s None 7]
  by (simp add: confidenceAfterPriceMomentum_def confidenceAfterImbalanceMomentum_def
        baseDirectionOf_def Let_def features_def)

text \<open>
  Counterexample to claim C2 as first stated, which gives confidence 0.15 for every
  horizon: at 30s the generator returns NEUTRAL with confidence 0.10.
\<close>

theorem neutral_confidence_counterexample:
  "ob_direction (generateSmartOrderBookPrediction H30s (features 0.1) None 0 None 0) = OB_NEUTRAL
   \<and> ob_confidence (generateSmartOrderBookPrediction H30s (features 0.1) None 0 None 0) \<noteq> 0.15"
  by (simp add: generateSmartOrderBookPrediction_def confidenceAfterPriceMomentum_def
        confidenceAfterImbalanceMomentum_def baseDirectionOf_def Let_def features_def)

section \<open>Properties of the price history buffer\<close>

lemma sliceLast_snoc:
  "0 < n \<Longrightarrow> sliceLast n (sliceLast n xs @ [x]) = sliceLast n (xs @ [x])"
  by (cases "n \<le> length xs") (simp_all add: sliceLast_def Suc_diff_le)

lemma foldl_appendPrice:
  "ticks \<noteq> [] \<Longrightarrow> foldl appendPrice start ticks = sliceLast MAX_HISTORY_LENGTH (start @ ticks)"
proof (induction ticks rule: rev_induct)
  case Nil
  then show ?case by simp
next
  case (snoc t ts)
  show ?case
  proof (cases "ts = []")
    case True
    then show ?thesis by (simp add: appendPrice_def)
  next
    case False
    with snoc.IH have "foldl appendPrice start ts = sliceLast MAX_HISTORY_LENGTH (start @ ts)"
      by simp
    then have "foldl appendPrice start (ts @ [t])
                 = sliceLast MAX_HISTORY_LENGTH (sliceLast MAX_HISTORY_LENGTH (start @ ts) @ [t])"
      by (simp add: appendPrice_def)
    also have "\<dots> = sliceLast MAX_HISTORY_LENGTH ((start @ ts) @ [t])"
      by (rule sliceLast_snoc) (simp add: MAX_HISTORY_LENGTH_def)
    finally show ?thesis by simp
  qed
qed

text \<open>
  Claim C9. The price history never exceeds 120 entries: for every starting history and
  every non-empty sequence of appended ticks, the buffer after the last append is the
  most recent \<open>min (total, 120)\<close> ticks of the whole sequence, oldest first. Appending
  200 ticks to an empty buffer leaves exactly the last 120, in order.
\<close>

theorem price_history_bounded:
  "(ticks \<noteq> [] \<longrightarrow>
      foldl appendPrice start ticks = drop (length (start @ ticks) - 120) (start @ ticks)
    \<and> length (foldl appendPrice start ticks) = min (length start + length ticks) 120
    \<and> length (foldl appendPrice start ticks) \<le> 120)
   \<and> (length ticks = 200 \<longrightarrow> foldl appendPrice [] ticks = drop 80 ticks)"
proof (intro conjI impI)
  assume ne: "ticks \<noteq> []"
  show "foldl appendPrice start ticks = drop (length (start @ ticks) - 120) (start @ ticks)"
    using foldl_appendPrice [OF ne] by (simp add: sliceLast_def MAX_HISTORY_LENGTH_def)
  then show "length (foldl appendPrice start ticks) = min (length start + length ticks) 120"
    by simp
  then show "length (foldl appendPrice start ticks) \<le> 120"
    by simp
next
  assume len: "length ticks = 200"
  then have "ticks \<noteq> []" by auto
  from foldl_appendPrice [OF this] len show "foldl appendPrice [] ticks = drop 80 ticks"
    by (simp add: sliceLast_def MAX_HISTORY_LENGTH_def)
qed

theorem price_history_bounded_witness:
  "length (map tick [0..<200]) = 200
   \<and> foldl appendPrice [] (map tick [0..<200]) = drop 80 (map tick [0..<200])
   \<and> length (foldl appendPrice [tick 0] (map tick [1..<200])) = 120"
  using price_history_bounded [of "map tick [0..<200]" "[]"]
        price_history_bounded [of "map tick [1..<200]" "[tick 0]"]
  by simp

section \<open>Properties of the order-book feature extractor\<close>

lemma foldl_snd_sum: "foldl (\<lambda>acc level. acc + snd level) a xs = a + sum_list (map snd xs)"
  for a :: real
  by (induction xs arbitrary: a) simp_all

lemma sum_take_nonneg:
  "\<forall>l \<in> set xs. 0 \<le> snd l \<Longrightarrow> 0 \<le> sum_list (map snd (take n xs))"
  for xs :: "('a \<times> real) list"
  by (rule sum_list_nonneg) (auto dest: in_set_takeD)

lemma imbalance_bounds:
  fixes b a :: real
  assumes "0 \<le> b" "0 \<le> a"
  shows "- 1 \<le> (b - a) / (b + a + 1 / 10 ^ 9)" "(b - a) / (b + a + 1 / 10 ^ 9) \<le> 1"
proof -
  have pos: "0 < b + a + 1 / 10 ^ 9" using assms by (simp add: add_nonneg_pos)
  show "- 1 \<le> (b - a) / (b + a + 1 / 10 ^ 9)"
    using pos assms by (simp add: pos_le_divide_eq)
  show "(b - a) / (b + a + 1 / 10 ^ 9) \<le> 1"
    using pos assms by (simp add: pos_divide_le_eq)
qed

text \<open>
  Claim C8. For every order book with non-empty bid and ask lists and non-negative
  quantities, the features are produced, the imbalance is
  \<open>(bid_vol - ask_vol) / (bid_vol + ask_vol + 1e-9)\<close> over the volumes of the top ten
  levels, and it lies in \<open>[-1, 1]\<close>; when both volumes are zero the imbalance is 0.
\<close>

theorem imbalance_in_range:
  assumes "bids ob \<noteq> []" and "asks ob \<noteq> []"
    and "\<forall>l \<in> set (bids ob). 0 \<le> snd l" and "\<forall>l \<in> set (asks ob). 0 \<le> snd l"
  shows "\<exists>f. getOrderBookFeatures (Some ob) = Some f
           \<and> bid_vol f = sum_list (map snd (take 10 (bids ob)))
           \<and> ask_vol f = sum_list (map snd (take 10 (asks ob)))
           \<and> imbalance f = (bid_vol f - ask_vol f) / (bid_vol f + ask_vol f + 1 / 10 ^ 9)
           \<and> - 1 \<le> imbalance f \<and> imbalance f \<le> 1
           \<and> (bid_vol f = 0 \<and> ask_vol f = 0 \<longrightarrow> imbalance f = 0)"
proof -
  let ?b = "sum_list (map snd (take 10 (bids ob)))"
  let ?a = "sum_list (map snd (take 10 (asks ob)))"
  have b: "0 \<le> ?b" using assms(3) by (rule sum_take_nonneg)
  have a: "0 \<le> ?a" using assms(4) by (rule sum_take_nonneg)
  show ?thesis
    using assms(1,2) imbalance_bounds [OF b a]
    by (simp add: getOrderBookFeatures_def Let_def foldl_snd_sum)
qed

theorem imbalance_in_range_witness:
  "(\<exists>f. getOrderBookFeatures (Some \<lparr> bids = [(100, 0), (99, 0)], asks = [(101, 0)] \<rparr>) = Some f
      \<and> imbalance f = 0)
   \<and> (\<exists>f. getOrderBookFeatures (Some \<lparr> bids = [(100, 3), (99, 1)], asks = [(101, 1)] \<rparr>) = Some f
      \<and> imbalance f = 3 / (5 + 1 / 10 ^ 9) \<and> imbalance f \<le> 1)"
  using imbalance_in_range [of "\<lparr> bids = [(100, 0), (99, 0)], asks = [(101, 0)] \<rparr>"]
        imbalance_in_range [of "\<lparr> bids = [(100, 3), (99, 1)], asks = [(101, 1)] \<rparr>"]
  by auto

section \<open>Properties of the accuracy aggregation\<close>

lemma filter_conj_reorder:
  "filter (\<lambda>oc. ob_timeframe (ob_prediction oc) = asTimeframe h
                \<and> ob_direction (ob_prediction oc) \<noteq> OB_NEUTRAL
                \<and> ob_status oc \<noteq> OB_PENDING) outcomes = spec_qualifying outcomes h"
  unfolding spec_qualifying_def by (rule filter_cong) auto

lemma stats_at_horizon:
  "orderBookAccuracyStats outcomes (asTimeframe h) = accuracyEntryOf (spec_qualifying outcomes h)"
  using filter_conj_reorder [of h outcomes]
  by (cases h) (simp_all add: orderBookAccuracyStats_def accuracyEntryOf_def Let_def)

text \<open>
  Claim C5. For every outcome history and each of the horizons 15s, 30s and 60s, the
  accuracy entry counts exactly the outcomes of that horizon whose status is not PENDING
  and whose direction is not NEUTRAL: it reports the number of CORRECT ones, the size
  of that set and their quotient. When the set is empty the horizon reports nothing;
  a reported entry has a positive total, so the quotient is never \<open>0 / 0\<close>, and its
  accuracy lies between 0 and 1.
\<close>

theorem accuracy_stats_per_horizon:
  "orderBookAccuracyStats outcomes (asTimeframe h) =
     (if spec_qualifying outcomes h = [] then None
      else Some \<lparr> correct = real (length (filter (\<lambda>oc. ob_status oc = OB_CORRECT)
                                            (spec_qualifying outcomes h))),
                  total = real (length (spec_qualifying outcomes h)),
                  accuracy = real (length (filter (\<lambda>oc. ob_status oc = OB_CORRECT)
                                             (spec_qualifying outcomes h)))
                               / real (length (spec_qualifying outcomes h)) \<rparr>)
   \<and> (\<forall>e. orderBookAccuracyStats outcomes (asTimeframe h) = Some e \<longrightarrow>
          0 < total e \<and> correct e \<le> total e \<and> accuracy e = correct e / total e
          \<and> 0 \<le> accuracy e \<and> accuracy e \<le> 1)"
proof -
  let ?q = "spec_qualifying outcomes h"
  have le: "length (filter (\<lambda>oc. ob_status oc = OB_CORRECT) ?q) \<le> length ?q"
    by (rule length_filter_le)
  show ?thesis
    using le by (auto simp: stats_at_horizon accuracyEntryOf_def divide_le_eq)
qed

theorem accuracy_stats_per_horizon_witness:
  "orderBookAccuracyStats
     [obOutcome TF15s OB_UP 0 OB_CORRECT, obOutcome TF15s OB_DOWN 0 OB_INCORRECT,
      obOutcome TF15s OB_NEUTRAL 0 OB_STATUS_NEUTRAL, obOutcome TF15s OB_UP 0 OB_PENDING,
      obOutcome TF30s OB_UP 0 OB_PENDING] TF15s
     = Some \<lparr> correct = 1, total = 2, accuracy = 1 / 2 \<rparr>
   \<and> orderBookAccuracyStats
     [obOutcome TF15s OB_UP 0 OB_CORRECT, obOutcome TF15s OB_DOWN 0 OB_INCORRECT,
      obOutcome TF15s OB_NEUTRAL 0 OB_STATUS_NEUTRAL, obOutcome TF15s OB_UP 0 OB_PENDING,
      obOutcome TF30s OB_UP 0 OB_PENDING] TF30s = None"
  using accuracy_stats_per_horizon [of "[obOutcome TF15s OB_UP 0 OB_CORRECT, obOutcome TF15s OB_DOWN 0 OB_INCORRECT,
      obOutcome TF15s OB_NEUTRAL 0 OB_STATUS_NEUTRAL, obOutcome TF15s OB_UP 0 OB_PENDING,
      obOutcome TF30s OB_UP 0 OB_PENDING]" H15s]
        accuracy_stats_per_horizon [of "[obOutcome TF15s OB_UP 0 OB_CORRECT, obOutcome TF15s OB_DOWN 0 OB_INCORRECT,
      obOutcome TF15s OB_NEUTRAL 0 OB_STATUS_NEUTRAL, obOutcome TF15s OB_UP 0 OB_PENDING,
      obOutcome TF30s OB_UP 0 OB_PENDING]" H30s]
  by (simp add: spec_qualifying_def obOutcome_def)

section \<open>Properties of the outcome tracker\<close>

lemma resolveAiOutcomes_map:
  "resolveAiOutcomes latestPrice now os = map (resolveAiOutcome latestPrice now) os"
  by (simp add: resolveAiOutcomes_def Let_def)

lemma resolveOrderBookOutcomes_map:
  "resolveOrderBookOutcomes latestPrice priceHistory now os =
     map (resolveOrderBookOutcome latestPrice priceHistory now) os"
  by (simp add: resolveOrderBookOutcomes_def Let_def)

lemma resolveAiOutcome_step:
  "ai_prediction (resolveAiOutcome latestPrice now oc) = ai_prediction oc
   \<and> (resolveAiOutcome latestPrice now oc \<noteq> oc \<longrightarrow>
        ai_status oc = PENDING \<and> ai_status (resolveAiOutcome latestPrice now oc) \<noteq> PENDING)"
  by (simp add: resolveAiOutcome_def Let_def)

lemma resolveOrderBookOutcome_step:
  "ob_prediction (resolveOrderBookOutcome latestPrice priceHistory now oc) = ob_prediction oc
   \<and> (resolveOrderBookOutcome latestPrice priceHistory now oc \<noteq> oc \<longrightarrow>
        ob_status oc = OB_PENDING
        \<and> ob_status (resolveOrderBookOutcome latestPrice priceHistory now oc) \<noteq> OB_PENDING)"
  by (simp add: resolveOrderBookOutcome_def Let_def split: option.split)

lemma resolutionPass_length:
  "length (fst (resolutionPass priceHistory now st)) = length (fst st)
   \<and> length (snd (resolutionPass priceHistory now st)) = length (snd st)"
  by (simp add: resolutionPass_def resolveAiOutcomes_map resolveOrderBookOutcomes_map)

lemma resolutionPass_ai_step:
  assumes "i < length (fst st)"
  shows "ai_prediction (fst (resolutionPass priceHistory now st) ! i) = ai_prediction (fst st ! i)
         \<and> (fst (resolutionPass priceHistory now st) ! i \<noteq> fst st ! i \<longrightarrow>
              ai_status (fst st ! i) = PENDING
              \<and> ai_status (fst (resolutionPass priceHistory now st) ! i) \<noteq> PENDING)"
proof (cases "priceHistory = [] \<or> price (last priceHistory) = 0")
  case True
  then have "resolutionPass priceHistory now st = st"
    by (auto simp: resolutionPass_def)
  then show ?thesis by simp
next
  case False
  then have "fst (resolutionPass priceHistory now st) ! i
               = resolveAiOutcome (price (last priceHistory)) now (fst st ! i)"
    using assms by (simp add: resolutionPass_def resolveAiOutcomes_map)
  then show ?thesis
    using resolveAiOutcome_step [of "price (last priceHistory)" now "fst st ! i"] by simp
qed

lemma resolutionPass_ob_step:
  assumes "j < length (snd st)"
  shows "ob_prediction (snd (resolutionPass priceHistory now st) ! j) = ob_prediction (snd st ! j)
         \<and> (snd (resolutionPass priceHistory now st) ! j \<noteq> snd st ! j \<longrightarrow>
              ob_status (snd st ! j) = OB_PENDING
              \<and> ob_status (snd (resolutionPass priceHistory now st) ! j) \<noteq> OB_PENDING)"
proof (cases "priceHistory = [] \<or> price (last priceHistory) = 0")
  case True
  then have "resolutionPass priceHistory now st = st"
    by (auto simp: resolutionPass_def)
  then show ?thesis by simp
next
  case False
  then have "snd (resolutionPass priceHistory now st) ! j
               = resolveOrderBookOutcome (price (last priceHistory)) priceHistory now (snd st ! j)"
    using assms by (simp add: resolutionPass_def resolveOrderBookOutcomes_map)
  then show ?thesis
    using resolveOrderBookOutcome_step [of "price (last priceHistory)" priceHistory now "snd st ! j"]
    by simp
qed

lemma resolutionPasses_length:
  "length (fst (resolutionPasses runs st)) = length (fst st)
   \<and> length (snd (resolutionPasses runs st)) = length (snd st)"
proof (induction runs arbitrary: st)
  case Nil
  show ?case by simp
next
  case (Cons r rest)
  obtain priceHistory now where r: "r = (priceHistory, now)" by (cases r)
  show ?case
    using Cons.IH [of "resolutionPass priceHistory now st"]
    by (simp add: r resolutionPass_length)
qed

lemma resolutionPasses_ai_stable:
  "i < length (fst st) \<Longrightarrow> ai_status (fst st ! i) \<noteq> PENDING
     \<Longrightarrow> fst (resolutionPasses runs st) ! i = fst st ! i"
proof (induction runs arbitrary: st)
  case Nil
  show ?case by simp
next
  case (Cons r rest)
  obtain priceHistory now where r: "r = (priceHistory, now)" by (cases r)
  let ?st = "resolutionPass priceHistory now st"
  have same: "fst ?st ! i = fst st ! i"
    using resolutionPass_ai_step [OF Cons.prems(1), of priceHistory now] Cons.prems(2) by blast
  have "fst (resolutionPasses rest ?st) ! i = fst ?st ! i"
    using Cons.prems same by (intro Cons.IH) (simp_all add: resolutionPass_length)
  then show ?case by (simp add: r same)
qed

lemma resolutionPasses_ob_stable:
  "j < length (snd st) \<Longrightarrow> ob_status (snd st ! j) \<noteq> OB_PENDING
     \<Longrightarrow> snd (resolutionPasses runs st) ! j = snd st ! j"
proof (induction runs arbitrary: st)
  case Nil
  show ?case by simp
next
  case (Cons r rest)
  obtain priceHistory now where r: "r = (priceHistory, now)" by (cases r)
  let ?st = "resolutionPass priceHistory now st"
  have same: "snd ?st ! j = snd st ! j"
    using resolutionPass_ob_step [OF Cons.prems(1), of priceHistory now] Cons.prems(2) by blast
  have "snd (resolutionPasses rest ?st) ! j = snd ?st ! j"
    using Cons.prems same by (intro Cons.IH) (simp_all add: resolutionPass_length)
  then show ?case by (simp add: r same)
qed

text \<open>
  Claim C3. Every outcome is created PENDING. A run of the resolution pass keeps each
  outcome's prediction and changes an outcome only from PENDING to a terminal status;
  once an outcome is terminal, no later sequence of runs, whatever the price histories
  and clock readings, changes it. The outcome lists keep their length.
\<close>

theorem outcomes_resolve_once:
  "(i < length ps \<and> i < 60 \<longrightarrow> ai_status (recordAiPredictions ps prevAi ! i) = PENDING)
   \<and> ob_status (recordOrderBookPrediction p prevOb ! 0) = OB_PENDING
   \<and> (let st1 = resolutionPasses runs st;
           st2 = resolutionPass priceHistory now st1;
           st3 = resolutionPasses later st2
       in length (fst st3) = length (fst st) \<and> length (snd st3) = length (snd st)
          \<and> (\<forall>i < length (fst st).
                ai_prediction (fst st2 ! i) = ai_prediction (fst st1 ! i)
                \<and> (fst st2 ! i \<noteq> fst st1 ! i \<longrightarrow>
                      ai_status (fst st1 ! i) = PENDING \<and> ai_status (fst st2 ! i) \<noteq> PENDING)
                \<and> (ai_status (fst st2 ! i) \<noteq> PENDING \<longrightarrow> fst st3 ! i = fst st2 ! i))
          \<and> (\<forall>j < length (snd st).
                ob_prediction (snd st2 ! j) = ob_prediction (snd st1 ! j)
                \<and> (snd st2 ! j \<noteq> snd st1 ! j \<longrightarrow>
                      ob_status (snd st1 ! j) = OB_PENDING \<and> ob_status (snd st2 ! j) \<noteq> OB_PENDING)
                \<and> (ob_status (snd st2 ! j) \<noteq> OB_PENDING \<longrightarrow> snd st3 ! j = snd st2 ! j)))"
proof (intro conjI)
  show "i < length ps \<and> i < 60 \<longrightarrow> ai_status (recordAiPredictions ps prevAi ! i) = PENDING"
    by (simp add: recordAiPredictions_def MAX_OUTCOME_HISTORY_def nth_append)
  show "ob_status (recordOrderBookPrediction p prevOb ! 0) = OB_PENDING"
    by (simp add: recordOrderBookPrediction_def MAX_OUTCOME_HISTORY_def)
  define st1 where "st1 = resolutionPasses runs st"
  define st2 where "st2 = resolutionPass priceHistory now st1"
  define st3 where "st3 = resolutionPasses later st2"
  have l1: "length (fst st1) = length (fst st)" "length (snd st1) = length (snd st)"
    by (simp_all add: st1_def resolutionPasses_length)
  have l2: "length (fst st2) = length (fst st)" "length (snd st2) = length (snd st)"
    by (simp_all add: st2_def resolutionPass_length l1)
  have l3: "length (fst st3) = length (fst st)" "length (snd st3) = length (snd st)"
    by (simp_all add: st3_def resolutionPasses_length l2)
  have ai: "ai_prediction (fst st2 ! i) = ai_prediction (fst st1 ! i)
            \<and> (fst st2 ! i \<noteq> fst st1 ! i \<longrightarrow>
                  ai_status (fst st1 ! i) = PENDING \<and> ai_status (fst st2 ! i) \<noteq> PENDING)
            \<and> (ai_status (fst st2 ! i) \<noteq> PENDING \<longrightarrow> fst st3 ! i = fst st2 ! i)"
    if "i < length (fst st)" for i
  proof -
    have i1: "i < length (fst st1)" and i2: "i < length (fst st2)"
      using that by (simp_all add: l1 l2)
    have a: "ai_prediction (fst st2 ! i) = ai_prediction (fst st1 ! i)
             \<and> (fst st2 ! i \<noteq> fst st1 ! i \<longrightarrow>
                   ai_status (fst st1 ! i) = PENDING \<and> ai_status (fst st2 ! i) \<noteq> PENDING)"
      unfolding st2_def by (rule resolutionPass_ai_step [OF i1])
    have b: "ai_status (fst st2 ! i) \<noteq> PENDING \<Longrightarrow> fst st3 ! i = fst st2 ! i"
      unfolding st3_def by (rule resolutionPasses_ai_stable [OF i2])
    show ?thesis using a b by blast
  qed
  have ob: "ob_prediction (snd st2 ! j) = ob_prediction (snd st1 ! j)
            \<and> (snd st2 ! j \<noteq> snd st1 ! j \<longrightarrow>
                  ob_status (snd st1 ! j) = OB_PENDING \<and> ob_status (snd st2 ! j) \<noteq> OB_PENDING)
            \<and> (ob_status (snd st2 ! j) \<noteq> OB_PENDING \<longrightarrow> snd st3 ! j = snd st2 ! j)"
    if "j < length (snd st)" for j
  proof -
    have j1: "j < length (snd st1)" and j2: "j < length (snd st2)"
      using that by (simp_all add: l1 l2)
    have a: "ob_prediction (snd st2 ! j) = ob_prediction (snd st1 ! j)
             \<and> (snd st2 ! j \<noteq> snd st1 ! j \<longrightarrow>
                   ob_status (snd st1 ! j) = OB_PENDING \<and> ob_status (snd st2 ! j) \<noteq> OB_PENDING)"
      unfolding st2_def by (rule resolutionPass_ob_step [OF j1])
    have b: "ob_status (snd st2 ! j) \<noteq> OB_PENDING \<Longrightarrow> snd st3 ! j = snd st2 ! j"
      unfolding st3_def by (rule resolutionPasses_ob_stable [OF j2])
    show ?thesis using a b by blast
  qed
  show "let st1 = resolutionPasses runs st;
           st2 = resolutionPass priceHistory now st1;
           st3 = resolutionPasses later st2
       in length (fst st3) = length (fst st) \<and> length (snd st3) = length (snd st)
          \<and> (\<forall>i < length (fst st).
                ai_prediction (fst st2 ! i) = ai_prediction (fst st1 ! i)
                \<and> (fst st2 ! i \<noteq> fst st1 ! i \<longrightarrow>
                      ai_status (fst st1 ! i) = PENDING \<and> ai_status (fst st2 ! i) \<noteq> PENDING)
                \<and> (ai_status (fst st2 ! i) \<noteq> PENDING \<longrightarrow> fst st3 ! i = fst st2 ! i))
          \<and> (\<forall>j < length (snd st).
                ob_prediction (snd st2 ! j) = ob_prediction (snd st1 ! j)
                \<and> (snd st2 ! j \<noteq> snd st1 ! j \<longrightarrow>
                      ob_status (snd st1 ! j) = OB_PENDING \<and> ob_status (snd st2 ! j) \<noteq> OB_PENDING)
                \<and> (ob_status (snd st2 ! j) \<noteq> OB_PENDING \<longrightarrow> snd st3 ! j = snd st2 ! j))"
    unfolding Let_def st1_def [symmetric] st2_def [symmetric] st3_def [symmetric]
    using l3 ai ob by simp
qed

theorem outcomes_resolve_once_witness:
  "resolutionPass [sample 0 3000, sample 14000 3010] 15000
     ([aiOutcome H15s UP 0 3000 PENDING], [obOutcome TF15s OB_UP 0 OB_PENDING])
     = ([aiOutcome H15s UP 0 3000 CORRECT], [obOutcome TF15s OB_UP 0 OB_CORRECT])
   \<and> fst (resolutionPasses [([sample 0 3000, sample 14000 3010, sample 16000 2990], 17000)]
        ([aiOutcome H15s UP 0 3000 CORRECT], [obOutcome TF15s OB_UP 0 OB_CORRECT])) ! 0
     = aiOutcome H15s UP 0 3000 CORRECT
   \<and> snd (resolutionPasses [([sample 0 3000, sample 14000 3010, sample 16000 2990], 17000)]
        ([aiOutcome H15s UP 0 3000 CORRECT], [obOutcome TF15s OB_UP 0 OB_CORRECT])) ! 0
     = obOutcome TF15s OB_UP 0 OB_CORRECT"
proof -
  let ?st0 = "([aiOutcome H15s UP 0 3000 PENDING], [obOutcome TF15s OB_UP 0 OB_PENDING])"
  let ?st1 = "([aiOutcome H15s UP 0 3000 CORRECT], [obOutcome TF15s OB_UP 0 OB_CORRECT])"
  let ?later = "[([sample 0 3000, sample 14000 3010, sample 16000 2990], 17000 :: real)]"
  have p: "resolutionPass [sample 0 3000, sample 14000 3010] 15000 ?st0 = ?st1"
    by (simp add: resolutionPass_def resolveAiOutcomes_def resolveOrderBookOutcomes_def
          resolveAiOutcome_def resolveOrderBookOutcome_def horizonElapsed_def sample_def
          aiOutcome_def obOutcome_def Let_def)
  have r0: "resolutionPasses [] ?st0 = ?st0" by simp
  note t = outcomes_resolve_once [where runs = "[]" and st = ?st0
        and priceHistory = "[sample 0 3000, sample 14000 3010]" and now = 15000
        and later = ?later, unfolded Let_def r0 p]
  note ai = t [THEN conjunct2, THEN conjunct2, THEN conjunct2, THEN conjunct2, THEN conjunct1,
               rule_format, of 0, THEN conjunct2, THEN conjunct2, rule_format]
  note ob = t [THEN conjunct2, THEN conjunct2, THEN conjunct2, THEN conjunct2, THEN conjunct2,
               rule_format, of 0, THEN conjunct2, THEN conjunct2, rule_format]
  have a: "fst (resolutionPasses ?later ?st1) ! 0 = aiOutcome H15s UP 0 3000 CORRECT"
    using ai by (simp add: aiOutcome_def)
  have b: "snd (resolutionPasses ?later ?st1) ! 0 = obOutcome TF15s OB_UP 0 OB_CORRECT"
    using ob by (simp add: obOutcome_def)
  show ?thesis using p a b by blast
qed

text \<open>
  Claim C4. For a PENDING heuristic outcome whose horizon has elapsed, the pass takes as
  baseline the first sample of the price history (oldest first) whose timestamp is at or
  after the prediction's; with no such sample the outcome is left as it is; a NEUTRAL
  prediction resolves to NEUTRAL; otherwise the realised direction is UP when the latest
  price is strictly above the baseline price and DOWN otherwise, and the status is
  CORRECT exactly when it equals the predicted direction, INCORRECT otherwise.
\<close>

theorem heuristic_resolution_rule:
  assumes "i < length outcomes"
    and "ob_status (outcomes ! i) = OB_PENDING"
    and "timeframeMap (ob_timeframe (ob_prediction (outcomes ! i))) = Some h"
    and "now - ob_timestamp (ob_prediction (outcomes ! i)) \<ge> h"
  shows "let oc = outcomes ! i;
             T = ob_timestamp (ob_prediction oc);
             dir = ob_direction (ob_prediction oc);
             r = resolveOrderBookOutcomes latestPrice priceHistory now outcomes ! i
         in ob_prediction r = ob_prediction oc
            \<and> ((\<forall>s \<in> set priceHistory. timestamp s < T) \<longrightarrow> r = oc)
            \<and> (\<forall>k < length priceHistory.
                  T \<le> timestamp (priceHistory ! k) \<and> (\<forall>j < k. timestamp (priceHistory ! j) < T)
                  \<longrightarrow> ob_status r =
                        (if dir = OB_NEUTRAL then OB_STATUS_NEUTRAL
                         else if (if latestPrice > price (priceHistory ! k) then OB_UP else OB_DOWN)
                                 = dir
                         then OB_CORRECT else OB_INCORRECT))"
proof -
  define oc where "oc = outcomes ! i"
  define T where "T = ob_timestamp (ob_prediction oc)"
  define dir where "dir = ob_direction (ob_prediction oc)"
  define r where "r = resolveOrderBookOutcome latestPrice priceHistory now oc"
  have r_nth: "resolveOrderBookOutcomes latestPrice priceHistory now outcomes ! i = r"
    using assms(1) by (simp add: resolveOrderBookOutcomes_map r_def oc_def)
  have el: "horizonElapsed now T (ob_timeframe (ob_prediction oc))"
    using assms(3,4) by (simp add: horizonElapsed_def T_def oc_def)
  have pend: "ob_status oc = OB_PENDING"
    using assms(2) by (simp add: oc_def)
  have r_eq: "r = (case find (\<lambda>s. timestamp s \<ge> T) priceHistory of
                     None \<Rightarrow> oc
                   | Some s \<Rightarrow>
                       if dir = OB_NEUTRAL then oc\<lparr> ob_status := OB_STATUS_NEUTRAL \<rparr>
                       else oc\<lparr> ob_status :=
                              (if (if latestPrice > price s then OB_UP else OB_DOWN) = dir
                               then OB_CORRECT else OB_INCORRECT) \<rparr>)"
    using el pend
    by (simp add: r_def resolveOrderBookOutcome_def Let_def T_def dir_def split: option.split)
  have pred: "ob_prediction r = ob_prediction oc"
    by (simp add: r_eq split: option.split)
  have none: "r = oc" if "\<forall>s \<in> set priceHistory. timestamp s < T"
  proof -
    have "find (\<lambda>s. timestamp s \<ge> T) priceHistory = None"
      using that by (auto simp: find_None_iff)
    then show ?thesis by (simp add: r_eq)
  qed
  have some: "ob_status r =
                (if dir = OB_NEUTRAL then OB_STATUS_NEUTRAL
                 else if (if latestPrice > price (priceHistory ! k) then OB_UP else OB_DOWN) = dir
                 then OB_CORRECT else OB_INCORRECT)"
    if "k < length priceHistory" "T \<le> timestamp (priceHistory ! k)"
       "\<forall>j < k. timestamp (priceHistory ! j) < T" for k
  proof -
    have "find (\<lambda>s. timestamp s \<ge> T) priceHistory = Some (priceHistory ! k)"
      using that by (auto simp: find_Some_iff intro!: exI [of _ k])
    then show ?thesis by (simp add: r_eq)
  qed
  show ?thesis
    unfolding Let_def r_nth oc_def [symmetric] T_def [symmetric] dir_def [symmetric]
    using pred none some by blast
qed

theorem heuristic_resolution_rule_witness:
  "ob_status (resolveOrderBookOutcomes 3010 [sample 0 3000, sample 14000 3010] 15000
      [obOutcome TF15s OB_UP 0 OB_PENDING, obOutcome TF30s OB_DOWN 0 OB_PENDING] ! 0) = OB_CORRECT
   \<and> resolveOrderBookOutcomes 3010 [sample 0 3000, sample 14000 3010] 30000
      [obOutcome TF15s OB_NEUTRAL 14001 OB_PENDING] ! 0 = obOutcome TF15s OB_NEUTRAL 14001 OB_PENDING"
proof -
  let ?hist = "[sample 0 3000, sample 14000 3010]"
  let ?os = "[obOutcome TF15s OB_UP 0 OB_PENDING, obOutcome TF30s OB_DOWN 0 OB_PENDING]"
  let ?ns = "[obOutcome TF15s OB_NEUTRAL 14001 OB_PENDING]"
  have h1: "0 < length ?os" and h2: "ob_status (?os ! 0) = OB_PENDING"
    and h3: "timeframeMap (ob_timeframe (ob_prediction (?os ! 0))) = Some 15000"
    and h4: "15000 - ob_timestamp (ob_prediction (?os ! 0)) \<ge> 15000"
    by (simp_all add: obOutcome_def)
  note t = heuristic_resolution_rule [OF h1 h2 h3 h4, of 3010 ?hist, unfolded Let_def]
  note s = t [THEN conjunct2, THEN conjunct2, rule_format, of 0]
  have a: "ob_status (resolveOrderBookOutcomes 3010 ?hist 15000 ?os ! 0) = OB_CORRECT"
    using s by (simp add: obOutcome_def sample_def)
  have g1: "0 < length ?ns" and g2: "ob_status (?ns ! 0) = OB_PENDING"
    and g3: "timeframeMap (ob_timeframe (ob_prediction (?ns ! 0))) = Some 15000"
    and g4: "30000 - ob_timestamp (ob_prediction (?ns ! 0)) \<ge> 15000"
    by (simp_all add: obOutcome_def)
  note u = heuristic_resolution_rule [OF g1 g2 g3 g4, of 3010 ?hist, unfolded Let_def]
  have pre: "\<forall>s \<in> set ?hist. timestamp s < ob_timestamp (ob_prediction (?ns ! 0))"
    by (simp add: obOutcome_def sample_def)
  note v = u [THEN conjunct2, THEN conjunct1, THEN mp, OF pre]
  have b: "resolveOrderBookOutcomes 3010 ?hist 30000 ?ns ! 0
             = obOutcome TF15s OB_NEUTRAL 14001 OB_PENDING"
    using v by simp
  show ?thesis using a b by blast
qed

section \<open>Properties of the indicator engine\<close>

lemma calculateSMA_None: "calculateSMA xs period = None \<longleftrightarrow> length xs < period"
  by (simp add: calculateSMA_def)

lemma calculateStdDev_None: "calculateStdDev xs period = None \<longleftrightarrow> length xs < period"
  by (simp add: calculateStdDev_def calculateSMA_def sliceLast_def Let_def)

lemma calculateBBands_None: "calculateBBands prices period m = None \<longleftrightarrow> length prices < period"
proof (cases "length prices < period")
  case True
  then show ?thesis by (simp add: calculateBBands_def)
next
  case False
  then obtain a b where "calculateSMA prices period = Some a" "calculateStdDev prices period = Some b"
    using calculateSMA_None [of prices period] calculateStdDev_None [of prices period] by auto
  with False show ?thesis by (simp add: calculateBBands_def)
qed

lemma calculateStochastic_None:
  "0 < kPeriod \<Longrightarrow> 0 < dPeriod \<Longrightarrow>
   calculateStochastic highs lows closes kPeriod dPeriod = None
     \<longleftrightarrow> length closes < kPeriod + dPeriod - 1"
  by (auto simp: calculateStochastic_def Let_def)

text \<open>
  Claim C6 (as amended). With the default periods, every series of fewer than
  \<open>period + 1\<close> samples makes \<open>calculateRSI\<close> (fewer than 15), \<open>calculateMACD\<close> (fewer
  than 27) and \<open>calculateStochastic\<close> (fewer than 15 closes) return null.
  \<open>calculateBBands\<close> with period 20 returns null exactly for fewer than 20 samples: a
  series of 20 samples already yields bands.
\<close>

theorem insufficient_data_returns_null:
  "(length prices < 14 + 1 \<longrightarrow> calculateRSI prices 14 = None)
   \<and> (length prices < 26 + 1 \<longrightarrow> calculateMACD prices 12 26 9 = None)
   \<and> (length closes < 14 + 1 \<longrightarrow> calculateStochastic highs lows closes 14 3 = None)
   \<and> (calculateBBands prices 20 2 = None \<longleftrightarrow> length prices < 20)"
  by (simp add: calculateRSI_def calculateMACD_def calculateBBands_None calculateStochastic_None)

theorem insufficient_data_returns_null_witness:
  "calculateRSI (ramp 14) 14 = None \<and> calculateMACD (ramp 26) 12 26 9 = None
   \<and> calculateStochastic (ramp 14) (ramp 14) (ramp 14) 14 3 = None
   \<and> calculateBBands (ramp 19) 20 2 = None \<and> calculateBBands (ramp 20) 20 2 \<noteq> None"
  using insufficient_data_returns_null [of "ramp 14" "ramp 14" "ramp 14" "ramp 14"]
    insufficient_data_returns_null [of "ramp 26"]
    insufficient_data_returns_null [of "ramp 19"]
    insufficient_data_returns_null [of "ramp 20"]
  by (simp add: ramp_def)

text \<open>
  Counterexample to claim C6 as first stated: the series \<open>1, ..., 20\<close> has fewer than
  \<open>period + 1 = 21\<close> samples, and \<open>calculateBBands\<close> does not return null on it.
\<close>

theorem bbands_twenty_samples_counterexample:
  "length (ramp 20) < 20 + 1 \<and> calculateBBands (ramp 20) 20 2 \<noteq> None"
  by (simp add: calculateBBands_None ramp_def)

text \<open>
  Claim C10. With the default periods \<open>calculateStochastic\<close> returns null for every
  series of at most 15 closes, and a \<open>(%K, %D)\<close> pair exactly when there are at least 16.
\<close>

theorem stochastic_null_threshold:
  "(calculateStochastic highs lows closes 14 3 = None \<longleftrightarrow> length closes \<le> 15)
   \<and> ((\<exists>r. calculateStochastic highs lows closes 14 3 = Some r) \<longleftrightarrow> 16 \<le> length closes)"
proof -
  have n: "calculateStochastic highs lows closes 14 3 = None \<longleftrightarrow> length closes \<le> 15"
    using calculateStochastic_None [of 14 3 highs lows closes] by auto
  then show ?thesis by auto
qed

theorem stochastic_null_threshold_witness:
  "calculateStochastic (ramp 15) (ramp 15) (ramp 15) 14 3 = None
   \<and> (\<exists>r. calculateStochastic (ramp 16) (ramp 16) (ramp 16) 14 3 = Some r)"
  using stochastic_null_threshold [of "ramp 15" "ramp 15" "ramp 15"]
    stochastic_null_threshold [of "ramp 16" "ramp 16" "ramp 16"]
  by (simp add: ramp_def)

lemma length_spec_deltas: "length (spec_deltas prices) = length prices - 1"
  by (simp add: spec_deltas_def)

lemma nth_spec_deltas:
  "Suc j < length prices \<Longrightarrow> spec_deltas prices ! j = prices ! Suc j - prices ! j"
  by (simp add: spec_deltas_def nth_tl)

lemma changes_first:
  assumes "period < length prices"
  shows "map (\<lambda>i. prices ! i - prices ! (i - 1)) [1..<period + 1] = take period (spec_deltas prices)"
proof (rule map_upt_eqI)
  show "length (take period (spec_deltas prices)) = period + 1 - 1"
    using assms by (simp add: length_spec_deltas)
next
  fix i assume "i < length (take period (spec_deltas prices))"
  then have "Suc i < length prices" using assms by simp
  then show "take period (spec_deltas prices) ! i = prices ! (1 + i) - prices ! (1 + i - 1)"
    using \<open>i < length (take period (spec_deltas prices))\<close> by (simp add: nth_spec_deltas)
qed

lemma changes_rest:
  assumes "period < length prices"
  shows "map (\<lambda>i. prices ! i - prices ! (i - 1)) [period + 1..<length prices]
           = drop period (spec_deltas prices)"
proof (rule map_upt_eqI)
  show "length (drop period (spec_deltas prices)) = length prices - (period + 1)"
    by (simp add: length_spec_deltas)
next
  fix i assume i: "i < length (drop period (spec_deltas prices))"
  then have "Suc (period + i) < length prices" by (simp add: length_spec_deltas)
  then show "drop period (spec_deltas prices) ! i
               = prices ! (period + 1 + i) - prices ! (period + 1 + i - 1)"
    by (simp add: nth_spec_deltas length_spec_deltas)
qed

lemma fold_sums:
  "fold (\<lambda>change (gains, losses).
           if change > 0 then (gains + change, losses) else (gains, losses - change)) ds (g, l)
     = (g + sum_list (map spec_gain ds), l + sum_list (map spec_loss ds))"
  by (induction ds arbitrary: g l) (simp_all add: spec_gain_def spec_loss_def)

lemma fold_smooth:
  "fold (\<lambda>change (avgGain, avgLoss).
           ((avgGain * (real period - 1) + (if change > 0 then change else 0)) / real period,
            (avgLoss * (real period - 1) + (if change < 0 then - change else 0)) / real period))
        ds (g, l)
     = (spec_wilder period g (map spec_gain ds), spec_wilder period l (map spec_loss ds))"
proof (induction ds arbitrary: g l)
  case Nil
  show ?case by simp
next
  case (Cons d ds)
  have g: "(if d > 0 then d else 0) = spec_gain d" by (simp add: spec_gain_def)
  have l: "(if d < 0 then - d else 0) = spec_loss d" by (simp add: spec_loss_def)
  show ?case by (simp only: fold_Cons comp_apply prod.case g l Cons.IH list.map spec_wilder.simps)
qed

lemma rsiInitialSums_eq:
  assumes "period < length prices"
  shows "rsiInitialSums prices period
           = (sum_list (map spec_gain (take period (spec_deltas prices))),
              sum_list (map spec_loss (take period (spec_deltas prices))))"
proof -
  have "rsiInitialSums prices period
          = fold (\<lambda>change (gains, losses).
                    if change > 0 then (gains + change, losses) else (gains, losses - change))
              (map (\<lambda>i. prices ! i - prices ! (i - 1)) [1..<period + 1]) (0, 0)"
    unfolding rsiInitialSums_def fold_map comp_def Let_def by (rule refl)
  also have "\<dots> = fold (\<lambda>change (gains, losses).
                    if change > 0 then (gains + change, losses) else (gains, losses - change))
              (take period (spec_deltas prices)) (0, 0)"
    by (simp only: changes_first [OF assms])
  also have "\<dots> = (0 + sum_list (map spec_gain (take period (spec_deltas prices))),
                   0 + sum_list (map spec_loss (take period (spec_deltas prices))))"
    by (rule fold_sums)
  finally show ?thesis by simp
qed

lemma rsiSmooth_eq:
  assumes "period < length prices"
  shows "rsiSmooth prices period (g, l)
           = (spec_wilder period g (map spec_gain (drop period (spec_deltas prices))),
              spec_wilder period l (map spec_loss (drop period (spec_deltas prices))))"
proof -
  have "rsiSmooth prices period (g, l)
          = fold (\<lambda>change (avgGain, avgLoss).
               ((avgGain * (real period - 1) + (if change > 0 then change else 0)) / real period,
                (avgLoss * (real period - 1) + (if change < 0 then - change else 0)) / real period))
              (map (\<lambda>i. prices ! i - prices ! (i - 1)) [period + 1..<length prices]) (g, l)"
    unfolding rsiSmooth_def fold_map comp_def Let_def by (rule refl)
  then show ?thesis
    by (simp only: changes_rest [OF assms] fold_smooth)
qed

lemma calculateRSI_refines: "calculateRSI prices period = spec_rsi prices period"
proof (cases "length prices \<le> period")
  case True
  then show ?thesis by (simp add: calculateRSI_def spec_rsi_def)
next
  case False
  then have lt: "period < length prices" by simp
  show ?thesis
    using False
    by (simp add: calculateRSI_def spec_rsi_def rsiInitialSums_eq [OF lt] rsiSmooth_eq [OF lt]
          spec_avgGain_def spec_avgLoss_def Let_def)
qed


lemma spec_deltas_increasing:
  assumes "sorted_wrt (<) prices" and "d \<in> set (spec_deltas prices)"
  shows "0 < d"
proof -
  from assms(2) obtain j where j: "j < length (spec_deltas prices)" "spec_deltas prices ! j = d"
    by (auto simp: in_set_conv_nth)
  then have s: "Suc j < length prices" by (simp add: length_spec_deltas)
  then have "prices ! j < prices ! Suc j"
    using assms(1) by (simp add: sorted_wrt_iff_nth_less)
  with j s show ?thesis by (simp add: nth_spec_deltas)
qed

lemma spec_deltas_decreasing:
  assumes "sorted_wrt (>) prices" and "d \<in> set (spec_deltas prices)"
  shows "d < 0"
proof -
  from assms(2) obtain j where j: "j < length (spec_deltas prices)" "spec_deltas prices ! j = d"
    by (auto simp: in_set_conv_nth)
  then have s: "Suc j < length prices" by (simp add: length_spec_deltas)
  then have "prices ! j > prices ! Suc j"
    using assms(1) by (simp add: sorted_wrt_iff_nth_less)
  with j s show ?thesis by (simp add: nth_spec_deltas)
qed

lemma sum_list_zero: "\<forall>x \<in> set xs. x = 0 \<Longrightarrow> sum_list xs = 0" for xs :: "real list"
  by (induction xs) simp_all

lemma sum_list_positive:
  "xs \<noteq> [] \<Longrightarrow> \<forall>x \<in> set xs. 0 < x \<Longrightarrow> 0 < sum_list xs" for xs :: "real list"
proof (induction xs)
  case Nil
  then show ?case by simp
next
  case (Cons x xs)
  have "0 \<le> sum_list xs"
    by (rule sum_list_nonneg) (use Cons.prems in \<open>simp add: less_imp_le\<close>)
  moreover have "0 < x" using Cons.prems by simp
  ultimately show ?case by simp
qed

lemma spec_wilder_zero: "\<forall>x \<in> set xs. x = 0 \<Longrightarrow> spec_wilder period 0 xs = 0"
  by (induction xs) simp_all

lemma spec_wilder_positive:
  "0 < period \<Longrightarrow> 0 < avg \<Longrightarrow> \<forall>x \<in> set xs. 0 < x \<Longrightarrow> 0 < spec_wilder period avg xs"
proof (induction xs arbitrary: avg)
  case Nil
  then show ?case by simp
next
  case (Cons x xs)
  have "0 \<le> avg * (real period - 1)"
    using Cons.prems(1,2) by simp
  moreover have "0 < x" using Cons.prems(3) by simp
  ultimately have "0 < (avg * (real period - 1) + x) / real period"
    using Cons.prems(1) by (simp add: add_nonneg_pos)
  then show ?case
    using Cons.IH [of "(avg * (real period - 1) + x) / real period"] Cons.prems(1,3) by simp
qed

lemma rsi_increasing:
  assumes "14 < length prices" and "sorted_wrt (<) prices"
  shows "calculateRSI prices 14 = Some 100"
proof -
  have z: "\<forall>x \<in> set (map spec_loss ds). x = 0" if "set ds \<subseteq> set (spec_deltas prices)" for ds
    using that spec_deltas_increasing [OF assms(2)] by (fastforce simp: spec_loss_def)
  have t: "sum_list (map spec_loss (take 14 (spec_deltas prices))) = 0"
    by (rule sum_list_zero, rule z) (rule set_take_subset)
  have "spec_avgLoss prices 14 = 0"
    unfolding spec_avgLoss_def t
    using spec_wilder_zero [OF z [OF set_drop_subset], of 14 14] by simp
  then show ?thesis
    using assms(1) by (simp add: calculateRSI_refines spec_rsi_def)
qed

lemma rsi_decreasing:
  assumes "14 < length prices" and "sorted_wrt (>) prices"
  shows "calculateRSI prices 14 = Some 0"
proof -
  have z: "\<forall>x \<in> set (map spec_gain ds). x = 0" if "set ds \<subseteq> set (spec_deltas prices)" for ds
    using that spec_deltas_decreasing [OF assms(2)] by (fastforce simp: spec_gain_def)
  have p: "\<forall>x \<in> set (map spec_loss ds). 0 < x" if "set ds \<subseteq> set (spec_deltas prices)" for ds
    using that spec_deltas_decreasing [OF assms(2)] by (fastforce simp: spec_loss_def)
  have t: "sum_list (map spec_gain (take 14 (spec_deltas prices))) = 0"
    by (rule sum_list_zero, rule z) (rule set_take_subset)
  have g: "spec_avgGain prices 14 = 0"
    unfolding spec_avgGain_def t
    using spec_wilder_zero [OF z [OF set_drop_subset], of 14 14] by simp
  have ne: "map spec_loss (take 14 (spec_deltas prices)) \<noteq> []"
    using assms(1) by (auto simp: length_spec_deltas dest!: arg_cong [where f = length])
  have "0 < sum_list (map spec_loss (take 14 (spec_deltas prices)))"
    by (rule sum_list_positive [OF ne], rule p) (rule set_take_subset)
  then have "0 < sum_list (map spec_loss (take 14 (spec_deltas prices))) / real 14"
    by simp
  then have "0 < spec_avgLoss prices 14"
    unfolding spec_avgLoss_def
    by (intro spec_wilder_positive p set_drop_subset) simp_all
  then show ?thesis
    using assms(1) g by (simp add: calculateRSI_refines spec_rsi_def)
qed

text \<open>
  Claim C7. For a positive period, the RSI is null for at most \<open>period\<close> samples and
  otherwise 100 when the average loss is zero and \<open>100 - 100 / (1 + avgGain / avgLoss)\<close>
  when it is not, where both averages start as the mean over the first \<open>period\<close> changes
  and are then smoothed by Wilder's recursion \<open>avg = (avg * (period - 1) + x) / period\<close>
  over the remaining changes. On every strictly increasing series of more than 14
  samples the RSI with period 14 is exactly 100, and on every strictly decreasing one it
  is exactly 0.
\<close>

theorem rsi_wilder_and_monotone:
  "(0 < period \<longrightarrow> calculateRSI prices period = spec_rsi prices period)
   \<and> (14 < length prices \<and> sorted_wrt (<) prices \<longrightarrow> calculateRSI prices 14 = Some 100)
   \<and> (14 < length prices \<and> sorted_wrt (>) prices \<longrightarrow> calculateRSI prices 14 = Some 0)"
  using calculateRSI_refines rsi_increasing rsi_decreasing by blast

theorem rsi_wilder_and_monotone_witness:
  "calculateRSI (ramp 16) 14 = Some 100 \<and> calculateRSI (rev (ramp 16)) 14 = Some 0
   \<and> calculateRSI [1, 2] 1 = spec_rsi [1, 2] 1"
  using rsi_wilder_and_monotone [of 14 "ramp 16", THEN conjunct2]
    rsi_wilder_and_monotone [of 14 "rev (ramp 16)", THEN conjunct2]
    rsi_wilder_and_monotone [of 1 "[1, 2]", THEN conjunct1]
  by (simp add: ramp_def upt_rec [of _ "numeral n" for n] upt_rec [of 1])

end
